theory Spec2Isabelle
  imports Main "HOL-Library.Sublist"
begin

section \<open>The series navigation component\<close>

text \<open>
  A shallow embedding of \<^verbatim>\<open>src/components/series-navigation.tsx\<close>: the React function
  component \<^verbatim>\<open>SeriesNavigation\<close>, the element tree it returns, and the one piece of
  state it owns (\<^verbatim>\<open>isOpen\<close>, from \<^verbatim>\<open>useState(false)\<close>).

  JavaScript strings are carried as \<^typ>\<open>string\<close>; a character outside ASCII stands as
  the bytes of its UTF-8 encoding. The nullish values \<^verbatim>\<open>null\<close> and \<^verbatim>\<open>undefined\<close> are
  \<^const>\<open>None\<close>: the source reads \<^verbatim>\<open>articles?.map\<close>, \<^verbatim>\<open>article?.slug\<close> and
  \<^verbatim>\<open>article?.title\<close>, so both the array and each of its elements may be nullish.
\<close>

subsection \<open>Props and state\<close>

record article =
  slug :: string
  title :: string

record Props =
  title :: string
  articles :: "article option list option"
  current :: string

record state =
  isOpen :: bool

text \<open>\<^verbatim>\<open>useState(false)\<close>: the state of a freshly mounted component.\<close>

definition useState_initial :: state where
  "useState_initial = \<lparr>isOpen = False\<rparr>"

text \<open>
  \<^verbatim>\<open>const toggleList = () => { setIsOpen(!isOpen); }\<close>: the closure made by a render
  reads the \<^verbatim>\<open>isOpen\<close> of that render; calling it asks React to store the negation.
\<close>

datatype action = SetIsOpen bool

definition toggleList :: "state \<Rightarrow> action" where
  "toggleList s = SetIsOpen (\<not> isOpen s)"

fun dispatch :: "action \<Rightarrow> state \<Rightarrow> state" where
  "dispatch (SetIsOpen v) s = s\<lparr>isOpen := v\<rparr>"

subsection \<open>Element trees\<close>

text \<open>
  An attribute is a string or an event handler. An element carries its tag (a host tag
  such as \<^verbatim>\<open>div\<close>, or the name of an imported component: \<^verbatim>\<open>Link\<close>, \<^verbatim>\<open>UpIcon\<close>,
  \<^verbatim>\<open>DownIcon\<close>), its attributes in source order and its children. A child that React
  does not render (\<^verbatim>\<open>false\<close>, \<^verbatim>\<open>undefined\<close>) is no child at all.
\<close>

datatype attr_value = Str string | Handler action

datatype node =
    Element string "(string \<times> attr_value) list" "node list"
  | Text string

fun tag :: "node \<Rightarrow> string option" where
  "tag (Element t as cs) = Some t"
| "tag (Text s) = None"

fun attr :: "string \<Rightarrow> node \<Rightarrow> attr_value option" where
  "attr k (Element t as cs) = map_of as k"
| "attr k (Text s) = None"

fun children :: "node \<Rightarrow> node list" where
  "children (Element t as cs) = cs"
| "children (Text s) = []"

text \<open>All nodes of a tree, the root first, in document order.\<close>

primrec descendants :: "node \<Rightarrow> node list" where
  "descendants (Element t as cs) = Element t as cs # concat (map descendants cs)"
| "descendants (Text s) = [Text s]"

definition by_tag :: "string \<Rightarrow> node \<Rightarrow> node list" where
  "by_tag t n = filter (\<lambda>m. tag m = Some t) (descendants n)"

definition by_id :: "string \<Rightarrow> node \<Rightarrow> node list" where
  "by_id i n = filter (\<lambda>m. attr ''id'' m = Some (Str i)) (descendants n)"

text \<open>The text of a tree: its text nodes, concatenated in document order.\<close>

primrec text_content :: "node \<Rightarrow> string" where
  "text_content (Element t as cs) = concat (map text_content cs)"
| "text_content (Text s) = s"

subsection \<open>Numbers as text\<close>

text \<open>
  \<^verbatim>\<open>{index + 1}\<close> renders a number; an array index plus one is a positive integer far
  below \<open>10\<^sup>2\<^sup>1\<close>, which JavaScript writes in plain decimal.
\<close>

definition digit_char :: "nat \<Rightarrow> char" where
  "digit_char d = ''0123456789'' ! d"

fun string_of_nat :: "nat \<Rightarrow> string" where
  "string_of_nat n =
     (if n < 10 then [digit_char n]
      else string_of_nat (n div 10) @ [digit_char (n mod 10)])"

declare string_of_nat.simps [simp del]

text \<open>Reading a decimal numeral back, to check \<^const>\<open>string_of_nat\<close> against.\<close>

definition decimal_value :: "string \<Rightarrow> nat" where
  "decimal_value ds = foldl (\<lambda>acc c. 10 * acc + (of_char c - 48)) 0 ds"

subsection \<open>The render function\<close>

definition li_current_class :: string where
  "li_current_class =
     ''font-medium text-slate-900 underline decoration-slate-400 decoration-2 underline-offset-2 dark:text-slate-100 dark:decoration-slate-700''"

definition li_other_class :: string where
  "li_other_class =
     ''text-slate-700 hover:text-slate-900 dark:text-slate-300 dark:hover:text-slate-100''"

definition base_url :: string where
  "base_url = ''https://ayoubkhial.com/blog/''"

text \<open>
  \<^verbatim>\<open>article?.slug\<close> and \<^verbatim>\<open>article?.title\<close>. Concatenating \<^verbatim>\<open>undefined\<close> to a string
  appends the text \<^verbatim>\<open>undefined\<close>; \<^verbatim>\<open>undefined === current\<close> is false for a string.
\<close>

definition opt_slug :: "article option \<Rightarrow> string option" where
  "opt_slug a = map_option slug a"

definition opt_title :: "article option \<Rightarrow> string option" where
  "opt_title a = map_option article.title a"

fun concat_js :: "string \<Rightarrow> string option \<Rightarrow> string" where
  "concat_js s None = s @ ''undefined''"
| "concat_js s (Some t) = s @ t"

fun text_child :: "string option \<Rightarrow> node list" where
  "text_child None = []"
| "text_child (Some t) = [Text t]"

text \<open>The callback of \<^verbatim>\<open>articles?.map((article, index) => ...)\<close>: one \<^verbatim>\<open>li\<close>.\<close>

definition list_item :: "string \<Rightarrow> nat \<Rightarrow> article option \<Rightarrow> node" where
  "list_item cur index a =
     Element ''li''
       [(''key'', Str (string_of_nat index)),
        (''className'',
           Str (if opt_slug a = Some cur then li_current_class else li_other_class))]
       [Element ''Link''
          [(''href'', Str (concat_js base_url (opt_slug a))),
           (''target'', Str ''_blank''),
           (''rel'', Str ''noopener noreferrer''),
           (''className'', Str ''flex items-center gap-2'')]
          ([Element ''span''
              [(''className'', Str ''font-medium text-slate-900 dark:text-slate-100'')]
              [Text ''Part '', Text (string_of_nat (index + 1)), Text '':''],
            Text '' '']
           @ text_child (opt_title a))]"

text \<open>\<^verbatim>\<open>articles?.map(...)\<close>: nothing for a nullish array, else one item per element.\<close>

fun list_items :: "string \<Rightarrow> article option list option \<Rightarrow> node list" where
  "list_items cur None = []"
| "list_items cur (Some as) =
     map (\<lambda>(index, a). list_item cur index a) (enumerate 0 as)"

text \<open>
  The header row. The template literal of its class interpolates
  \<^verbatim>\<open>isOpen && 'border-b-slate-200'\<close>, which is the text \<^verbatim>\<open>false\<close> when closed.
\<close>

definition header_row :: "Props \<Rightarrow> state \<Rightarrow> node" where
  "header_row p s =
     Element ''div''
       [(''className'',
           Str (''flex justify-between rounded-lg rounded-b-none border border-slate-300 bg-slate-100 p-3 dark:border-slate-700 dark:bg-slate-900 ''
                @ (if isOpen s then ''border-b-slate-200'' else ''false'')))]
       [Element ''h2''
          [(''className'',
              Str ''font-heading text-3 font-medium text-slate-900 dark:text-slate-100'')]
          [Text (Props.title p), Text '' - Article Series''],
        Element ''button''
          [(''onClick'', Handler (toggleList s)),
           (''data-accordion-target'', Str ''#accordion-collapse-body''),
           (''aria-expanded'', Str ''true''),
           (''aria-controls'', Str ''accordion-collapse-body'')]
          [if isOpen s then Element ''UpIcon'' [] [] else Element ''DownIcon'' [] []]]"

text \<open>The body, present only under \<^verbatim>\<open>isOpen && (...)\<close>.\<close>

definition list_body :: "Props \<Rightarrow> node" where
  "list_body p =
     Element ''div''
       [(''id'', Str ''accordion-collapse-body''),
        (''aria-labelledby'', Str ''accordion-collapse-heading'')]
       [Element ''ul''
          [(''className'',
              Str (''flex flex-col gap-3 border border-t-0 border-slate-300 bg-slate-100 p-3 ''
                   @ [CHR 0x0A] @ ''dark:border-slate-700 dark:bg-slate-900''))]
          (list_items (current p) (articles p))]"

definition SeriesNavigation :: "Props \<Rightarrow> state \<Rightarrow> node" where
  "SeriesNavigation p s =
     Element ''div''
       [(''id'', Str ''accordion-collapse''), (''data-accordion'', Str ''collapse'')]
       (header_row p s # (if isOpen s then [list_body p] else []))"

subsection \<open>Activating the toggle\<close>

text \<open>
  A click on the button runs the \<^verbatim>\<open>onClick\<close> handler of the tree on screen, which was
  made by the render of the state the click finds; React renders again before the next
  click is handled.
\<close>

fun run_handlers :: "attr_value option list \<Rightarrow> state \<Rightarrow> state" where
  "run_handlers [] s = s"
| "run_handlers (Some (Handler a) # hs) s = run_handlers hs (dispatch a s)"
| "run_handlers (_ # hs) s = run_handlers hs s"

definition click_toggle :: "Props \<Rightarrow> state \<Rightarrow> state" where
  "click_toggle p s =
     run_handlers (map (attr ''onClick'') (by_tag ''button'' (SeriesNavigation p s))) s"

subsection \<open>What the claims observe\<close>

definition highlighted :: "node \<Rightarrow> bool" where
  "highlighted n = (attr ''className'' n = Some (Str li_current_class))"

definition rendered_items :: "Props \<Rightarrow> state \<Rightarrow> node list" where
  "rendered_items p s = by_tag ''li'' (SeriesNavigation p s)"

definition rendered_links :: "Props \<Rightarrow> state \<Rightarrow> node list" where
  "rendered_links p s = by_tag ''Link'' (SeriesNavigation p s)"

text \<open>The slugs of the elements that are objects.\<close>

definition slugs :: "article option list \<Rightarrow> string list" where
  "slugs as = List.map_filter opt_slug as"

text \<open>A tree with the class of every \<^verbatim>\<open>li\<close> removed.\<close>

primrec strip_li_class :: "node \<Rightarrow> node" where
  "strip_li_class (Element t as cs) =
     Element t (if t = ''li'' then filter (\<lambda>kv. fst kv \<noteq> ''className'') as else as)
       (map strip_li_class cs)"
| "strip_li_class (Text s) = Text s"

text \<open>The label that would carry an em dash (U+2014, three bytes in UTF-8).\<close>

definition em_dash_label :: string where
  "em_dash_label = [CHR 0xE2, CHR 0x80, CHR 0x94] @ '' Article Series''"

section \<open>Structure of the rendered tree\<close>

lemma classes_differ: "li_current_class \<noteq> li_other_class"
  by (simp add: li_current_class_def li_other_class_def)

lemma descendants_item_tag:
  "filter (\<lambda>m. tag m = Some ''li'') (descendants (list_item c i a)) = [list_item c i a]"
  by (cases a) (simp_all add: list_item_def opt_title_def)

lemma descendants_item_link:
  "filter (\<lambda>m. tag m = Some ''Link'') (descendants (list_item c i a)) = children (list_item c i a)"
  by (cases a) (simp_all add: list_item_def opt_title_def)

lemma filter_concat_single:
  "(\<And>x. filter P (f x) = [g x]) \<Longrightarrow> filter P (concat (map f xs)) = map g xs"
  by (induction xs) simp_all

lemma filter_concat_none:
  "(\<And>x. filter P (f x) = []) \<Longrightarrow> filter P (concat (map f xs)) = []"
  by (induction xs) simp_all

lemma li_of_items:
  "filter (\<lambda>m. tag m = Some ''li'') (concat (map descendants (list_items c as))) = list_items c as"
proof (cases as)
  case None
  then show ?thesis by simp
next
  case (Some xs)
  have "filter (\<lambda>m. tag m = Some ''li'')
          (concat (map (\<lambda>ia. descendants (list_item c (fst ia) (snd ia))) ys))
        = map (\<lambda>ia. list_item c (fst ia) (snd ia)) ys" for ys
    by (rule filter_concat_single) (rule descendants_item_tag)
  then show ?thesis using Some by (simp add: case_prod_unfold comp_def)
qed

lemma header_no_li: "filter (\<lambda>m. tag m = Some ''li'') (descendants (header_row p s)) = []"
  by (simp add: header_row_def)

lemma items_expanded: "isOpen s \<Longrightarrow> rendered_items p s = list_items (current p) (articles p)"
  by (simp add: rendered_items_def by_tag_def SeriesNavigation_def header_no_li list_body_def li_of_items)

lemma items_collapsed: "\<not> isOpen s \<Longrightarrow> rendered_items p s = []"
  by (simp add: rendered_items_def by_tag_def SeriesNavigation_def header_no_li)

lemma list_items_length: "length (list_items c (Some xs)) = length xs"
  by simp

lemma list_items_nth: "i < length xs \<Longrightarrow> list_items c (Some xs) ! i = list_item c i (xs ! i)"
  by (simp add: nth_enumerate_eq)

lemma highlighted_item: "highlighted (list_item c i a) \<longleftrightarrow> opt_slug a = Some c"
  by (simp add: highlighted_def list_item_def classes_differ[symmetric])

lemma item_other_tag:
  "t \<noteq> ''li'' \<Longrightarrow> t \<noteq> ''Link'' \<Longrightarrow> t \<noteq> ''span'' \<Longrightarrow>
   filter (\<lambda>m. tag m = Some t) (descendants (list_item c i a)) = []"
  by (cases a) (auto simp add: list_item_def opt_title_def)

lemma item_no_attr:
  "k \<noteq> ''key'' \<Longrightarrow> k \<noteq> ''className'' \<Longrightarrow> k \<noteq> ''href'' \<Longrightarrow> k \<noteq> ''target'' \<Longrightarrow> k \<noteq> ''rel'' \<Longrightarrow>
   filter (\<lambda>m. attr k m = Some v) (descendants (list_item c i a)) = []"
  by (cases a) (auto simp add: list_item_def opt_title_def)

lemma items_other_tag:
  assumes "t \<noteq> ''li''" "t \<noteq> ''Link''" "t \<noteq> ''span''"
  shows "filter (\<lambda>m. tag m = Some t) (concat (map descendants (list_items c as))) = []"
proof (cases as)
  case None
  then show ?thesis by simp
next
  case (Some xs)
  have "filter (\<lambda>m. tag m = Some t)
          (concat (map (\<lambda>ia. descendants (list_item c (fst ia) (snd ia))) ys)) = []" for ys
    by (rule filter_concat_none) (rule item_other_tag [OF assms])
  then show ?thesis using Some by (simp add: case_prod_unfold comp_def)
qed

lemma items_no_id:
  "filter (\<lambda>m. attr ''id'' m = Some v) (concat (map descendants (list_items c as))) = []"
proof (cases as)
  case None
  then show ?thesis by simp
next
  case (Some xs)
  have "filter (\<lambda>m. attr ''id'' m = Some v)
          (concat (map (\<lambda>ia. descendants (list_item c (fst ia) (snd ia))) ys)) = []" for ys
    by (rule filter_concat_none) (rule item_no_attr, simp_all)
  then show ?thesis using Some by (simp add: case_prod_unfold comp_def)
qed

lemma link_of_items:
  "filter (\<lambda>m. tag m = Some ''Link'') (concat (map descendants (list_items c as)))
   = concat (map children (list_items c as))"
proof (cases as)
  case None
  then show ?thesis by simp
next
  case (Some xs)
  have "filter (\<lambda>m. tag m = Some ''Link'')
          (concat (map (\<lambda>ia. descendants (list_item c (fst ia) (snd ia))) ys))
        = concat (map (\<lambda>ia. children (list_item c (fst ia) (snd ia))) ys)" for ys
    by (induction ys) (simp_all add: descendants_item_link)
  then show ?thesis using Some by (simp add: case_prod_unfold comp_def)
qed

lemma buttons_rendered:
  "by_tag ''button'' (SeriesNavigation p s) =
     [Element ''button''
          [(''onClick'', Handler (toggleList s)),
           (''data-accordion-target'', Str ''#accordion-collapse-body''),
           (''aria-expanded'', Str ''true''),
           (''aria-controls'', Str ''accordion-collapse-body'')]
          [if isOpen s then Element ''UpIcon'' [] [] else Element ''DownIcon'' [] []]]"
  by (simp add: by_tag_def SeriesNavigation_def header_row_def list_body_def items_other_tag)

lemma click_toggle_eq: "click_toggle p s = s\<lparr>isOpen := \<not> isOpen s\<rparr>"
  by (simp add: click_toggle_def buttons_rendered toggleList_def)

lemma ul_rendered:
  "by_tag ''ul'' (SeriesNavigation p s) =
     (if isOpen s then children (list_body p) else [])"
  by (simp add: by_tag_def SeriesNavigation_def header_row_def list_body_def items_other_tag)

lemma body_rendered:
  "by_id ''accordion-collapse-body'' (SeriesNavigation p s) =
     (if isOpen s then [list_body p] else [])"
  by (simp add: by_id_def SeriesNavigation_def header_row_def list_body_def items_no_id)

lemma h2_rendered:
  "by_tag ''h2'' (SeriesNavigation p s) = by_tag ''h2'' (header_row p s)"
  by (simp add: by_tag_def SeriesNavigation_def header_row_def list_body_def items_other_tag)

lemma links_rendered:
  "rendered_links p s =
     (if isOpen s then concat (map children (list_items (current p) (articles p))) else [])"
  by (simp add: rendered_links_def by_tag_def SeriesNavigation_def header_row_def list_body_def link_of_items)

lemma links_some:
  "concat (map children (list_items c (Some xs))) =
   map (\<lambda>ia. hd (children (list_item c (fst ia) (snd ia)))) (enumerate 0 xs)"
proof -
  have "concat (map (\<lambda>ia. children (list_item c (fst ia) (snd ia))) ys)
        = map (\<lambda>ia. hd (children (list_item c (fst ia) (snd ia)))) ys" for ys
    by (induction ys) (simp_all add: list_item_def)
  then show ?thesis by (simp add: case_prod_unfold comp_def)
qed

lemma count_matches:
  "length (filter (\<lambda>a. opt_slug a = Some c) xs) = count_list (slugs xs) c"
  by (induction xs) (auto simp add: slugs_def List.map_filter_simps split: option.splits)

lemma distinct_count: "distinct ys \<Longrightarrow> count_list ys c = (if c \<in> set ys then 1 else 0)"
  by (induction ys) auto

lemma count_items_from:
  "length (filter highlighted (map (\<lambda>(i, a). list_item c i a) (enumerate n xs)))
   = length (filter (\<lambda>a. opt_slug a = Some c) xs)"
  by (induction xs arbitrary: n) (simp_all add: highlighted_item)

lemma count_items:
  "length (filter highlighted (list_items c (Some xs))) = length (filter (\<lambda>a. opt_slug a = Some c) xs)"
  by (simp only: list_items.simps count_items_from)

section \<open>Highlighting\<close>

text \<open>
  Claim C1, as the code has it. The claim says that an item is highlighted exactly when
  its id is the current one, and that at most one item is ever highlighted. The first
  half holds: with the list open, the item at index \<open>i\<close> carries the highlighting class
  if and only if the element at index \<open>i\<close> is an object whose \<^verbatim>\<open>slug\<close> equals
  \<^verbatim>\<open>current\<close>. The second half does not: the class is decided item by item, so the
  number of highlighted items is the number of elements whose slug is the current one.
  When the slugs are pairwise distinct, that number is one if some slug equals
  \<^verbatim>\<open>current\<close> and zero otherwise.
\<close>

theorem highlight_matches_current:
  assumes "isOpen s" and "articles p = Some xs"
  shows "length (rendered_items p s) = length xs
     \<and> (\<forall>i<length xs. highlighted (rendered_items p s ! i) \<longleftrightarrow> opt_slug (xs ! i) = Some (current p))
     \<and> length (filter highlighted (rendered_items p s)) = count_list (slugs xs) (current p)
     \<and> (distinct (slugs xs) \<longrightarrow>
          length (filter highlighted (rendered_items p s)) = (if current p \<in> set (slugs xs) then 1 else 0))"
proof -
  have items: "rendered_items p s = list_items (current p) (Some xs)"
    using assms by (simp add: items_expanded)
  have n: "length (filter highlighted (rendered_items p s)) = count_list (slugs xs) (current p)"
    by (simp only: items count_items count_matches)
  show ?thesis
    using n by (simp add: items list_items_length list_items_nth highlighted_item distinct_count
        del: list_items.simps)
qed

text \<open>
  Two articles that share the slug \<^verbatim>\<open>a\<close>, viewed with \<^verbatim>\<open>current = "a"\<close>: both items
  are highlighted.
\<close>

theorem highlight_duplicate_counterexample:
  "\<not> length (filter highlighted (rendered_items
       \<lparr>title = ''Git'',
        articles = Some [Some \<lparr>slug = ''a'', title = ''One''\<rparr>, Some \<lparr>slug = ''a'', title = ''Two''\<rparr>],
        current = ''a''\<rparr> \<lparr>isOpen = True\<rparr>)) \<le> 1"
  by (simp add: items_expanded count_items opt_slug_def del: list_items.simps)

theorem highlight_matches_current_witness:
  "length (rendered_items
       \<lparr>title = ''Git'',
        articles = Some [Some \<lparr>slug = ''a'', title = ''One''\<rparr>, None, Some \<lparr>slug = ''b'', title = ''Two''\<rparr>],
        current = ''b''\<rparr> \<lparr>isOpen = True\<rparr>) = 3
   \<and> highlighted (rendered_items
       \<lparr>title = ''Git'',
        articles = Some [Some \<lparr>slug = ''a'', title = ''One''\<rparr>, None, Some \<lparr>slug = ''b'', title = ''Two''\<rparr>],
        current = ''b''\<rparr> \<lparr>isOpen = True\<rparr> ! 2)
   \<and> \<not> highlighted (rendered_items
       \<lparr>title = ''Git'',
        articles = Some [Some \<lparr>slug = ''a'', title = ''One''\<rparr>, None, Some \<lparr>slug = ''b'', title = ''Two''\<rparr>],
        current = ''b''\<rparr> \<lparr>isOpen = True\<rparr> ! 1)
   \<and> length (filter highlighted (rendered_items
       \<lparr>title = ''Git'',
        articles = Some [Some \<lparr>slug = ''a'', title = ''One''\<rparr>, None, Some \<lparr>slug = ''b'', title = ''Two''\<rparr>],
        current = ''b''\<rparr> \<lparr>isOpen = True\<rparr>)) = 1"
  using highlight_matches_current
    [of "\<lparr>isOpen = True\<rparr>"
        "\<lparr>title = ''Git'',
        articles = Some [Some \<lparr>slug = ''a'', title = ''One''\<rparr>, None, Some \<lparr>slug = ''b'', title = ''Two''\<rparr>],
        current = ''b''\<rparr>"
        "[Some \<lparr>slug = ''a'', title = ''One''\<rparr>, None, Some \<lparr>slug = ''b'', title = ''Two''\<rparr>]"]
  by (simp add: slugs_def opt_slug_def)

section \<open>The toggle\<close>

lemma click_iterate: "(click_toggle p ^^ n) s = s\<lparr>isOpen := (if even n then isOpen s else \<not> isOpen s)\<rparr>"
  by (induction n) (simp_all add: click_toggle_eq)

text \<open>
  Claim C2. A click stores the negation of the state it finds, so two clicks restore
  any state, and \<open>n\<close> clicks on a fresh component leave it open exactly when \<open>n\<close> is
  odd. After the first click the body of the list is in the tree, with one item per
  element of \<^verbatim>\<open>articles\<close>; after the second the tree holds no body, no \<^verbatim>\<open>ul\<close> and
  no item: the list is absent, not hidden.
\<close>

theorem toggle_parity:
  "click_toggle p (click_toggle p s) = s
   \<and> (click_toggle p ^^ n) useState_initial = \<lparr>isOpen = odd n\<rparr>
   \<and> click_toggle p useState_initial = \<lparr>isOpen = True\<rparr>
   \<and> by_id ''accordion-collapse-body'' (SeriesNavigation p (click_toggle p useState_initial))
       = [list_body p]
   \<and> rendered_items p (click_toggle p useState_initial) = list_items (current p) (articles p)
   \<and> click_toggle p (click_toggle p useState_initial) = \<lparr>isOpen = False\<rparr>
   \<and> by_id ''accordion-collapse-body''
         (SeriesNavigation p (click_toggle p (click_toggle p useState_initial))) = []
   \<and> by_tag ''ul'' (SeriesNavigation p (click_toggle p (click_toggle p useState_initial))) = []
   \<and> rendered_items p (click_toggle p (click_toggle p useState_initial)) = []"
  by (simp add: click_toggle_eq click_iterate useState_initial_def body_rendered ul_rendered
      items_expanded items_collapsed)

text \<open>
  Claim C5. A fresh component is closed, and its first render is the header row alone,
  whatever \<^verbatim>\<open>articles\<close> holds.
\<close>

theorem initial_collapsed:
  "isOpen useState_initial = False
   \<and> children (SeriesNavigation p useState_initial) = [header_row p useState_initial]
   \<and> by_id ''accordion-collapse-body'' (SeriesNavigation p useState_initial) = []
   \<and> by_tag ''ul'' (SeriesNavigation p useState_initial) = []
   \<and> rendered_items p useState_initial = []"
proof -
  have "children (SeriesNavigation p useState_initial) = [header_row p useState_initial]"
    by (simp add: useState_initial_def SeriesNavigation_def)
  then show ?thesis
    by (simp add: useState_initial_def body_rendered ul_rendered items_collapsed)
qed

text \<open>
  Claim C9. The button's \<^verbatim>\<open>aria-expanded\<close> attribute is the text \<^verbatim>\<open>true\<close> in both
  states; only the icon inside the button follows the state.
\<close>

theorem aria_expanded_constant:
  "map (attr ''aria-expanded'') (by_tag ''button'' (SeriesNavigation p s)) = [Some (Str ''true'')]
   \<and> map children (by_tag ''button'' (SeriesNavigation p s))
       = [[Element (if isOpen s then ''UpIcon'' else ''DownIcon'') [] []]]"
  by (simp add: buttons_rendered)

section \<open>The header\<close>

text \<open>
  Claim C3, as the code has it. The claim gives the fixed label an em dash. The source
  writes \<^verbatim>\<open>{title} - Article Series\<close>: the header row, which is the first child of the
  tree in both states, holds one \<^verbatim>\<open>h2\<close> whose text is the title followed by a space, a
  hyphen-minus, a space and \<^verbatim>\<open>Article Series\<close>.
\<close>

theorem header_title_label:
  "children (SeriesNavigation p s) ! 0 = header_row p s
   \<and> map text_content (by_tag ''h2'' (header_row p s)) = [Props.title p @ '' - Article Series'']
   \<and> map text_content (by_tag ''h2'' (SeriesNavigation p s)) = [Props.title p @ '' - Article Series'']"
  by (simp add: h2_rendered) (simp add: SeriesNavigation_def header_row_def by_tag_def)

text \<open>
  For the title \<^verbatim>\<open>Git\<close> the header reads \<^verbatim>\<open>Git - Article Series\<close>; the label with the
  em dash occurs nowhere in it, in either state.
\<close>

theorem header_em_dash_counterexample:
  "text_content (header_row \<lparr>title = ''Git'', articles = Some [], current = ''x''\<rparr> \<lparr>isOpen = False\<rparr>)
     = ''Git - Article Series''
   \<and> \<not> sublist (''Git'' @ em_dash_label)
       (text_content (header_row \<lparr>title = ''Git'', articles = Some [], current = ''x''\<rparr> \<lparr>isOpen = False\<rparr>))
   \<and> \<not> sublist em_dash_label
       (text_content (header_row \<lparr>title = ''Git'', articles = Some [], current = ''x''\<rparr> \<lparr>isOpen = False\<rparr>))
   \<and> \<not> sublist em_dash_label
       (text_content (header_row \<lparr>title = ''Git'', articles = Some [], current = ''x''\<rparr> \<lparr>isOpen = True\<rparr>))"
  by code_simp

section \<open>The items of the list\<close>

lemma digit_char_value: "d < 10 \<Longrightarrow> of_char (digit_char d) - 48 = d"
proof -
  assume "d < 10"
  then have "d \<in> {0, 1, 2, 3, 4, 5, 6, 7, 8, 9}" by auto
  then show ?thesis by (auto simp add: digit_char_def)
qed

lemma decimal_value_snoc:
  "decimal_value (ds @ [c]) = 10 * decimal_value ds + (of_char c - 48)"
  by (simp add: decimal_value_def)

text \<open>
  \<^const>\<open>string_of_nat\<close> writes the decimal numeral of its argument.
\<close>

lemma string_of_nat_decimal: "decimal_value (string_of_nat n) = n"
proof (induction n rule: string_of_nat.induct)
  case (1 n)
  show ?case
  proof (cases "n < 10")
    case True
    then show ?thesis
      by (subst string_of_nat.simps) (simp add: decimal_value_def digit_char_value)
  next
    case False
    then have "decimal_value (string_of_nat (n div 10)) = n div 10" using "1" by simp
    with False show ?thesis
      by (subst string_of_nat.simps) (simp add: decimal_value_snoc digit_char_value)
  qed
qed

lemma rendered_link_nth:
  assumes "isOpen s" and "articles p = Some xs" and "i < length xs"
  shows "rendered_links p s ! i = hd (children (list_item (current p) i (xs ! i)))"
  using assms by (simp add: links_rendered links_some nth_enumerate_eq del: list_items.simps)

lemma rendered_links_length:
  assumes "isOpen s" and "articles p = Some xs"
  shows "length (rendered_links p s) = length xs"
  using assms by (simp add: links_rendered links_some del: list_items.simps)

lemma rendered_item_nth:
  assumes "isOpen s" and "articles p = Some xs" and "i < length xs"
  shows "rendered_items p s ! i = list_item (current p) i (xs ! i)"
  using assms by (simp add: items_expanded list_items_nth del: list_items.simps)

text \<open>
  Claim C4. With the list open, the item at index \<open>i\<close> has one child, the link at
  index \<open>i\<close>, and for an element that is an article object the link's \<^verbatim>\<open>href\<close> is the
  fixed base \<^verbatim>\<open>https://ayoubkhial.com/blog/\<close> followed by the article's slug, unchanged.
\<close>

theorem link_target:
  assumes "isOpen s" and "articles p = Some xs" and "i < length xs" and "xs ! i = Some a"
  shows "length (rendered_links p s) = length xs
     \<and> children (rendered_items p s ! i) = [rendered_links p s ! i]
     \<and> attr ''href'' (rendered_links p s ! i) = Some (Str (''https://ayoubkhial.com/blog/'' @ slug a))"
  using assms
  by (simp add: rendered_links_length rendered_link_nth rendered_item_nth)
     (simp add: list_item_def opt_slug_def base_url_def)

text \<open>
  The slug \<^verbatim>\<open>foo-bar\<close> gives \<^verbatim>\<open>https://ayoubkhial.com/blog/foo-bar\<close>.
\<close>

theorem link_target_witness:
  "attr ''href'' (rendered_links
      \<lparr>title = ''Git'', articles = Some [Some \<lparr>slug = ''foo-bar'', title = ''One''\<rparr>], current = ''x''\<rparr>
      \<lparr>isOpen = True\<rparr> ! 0)
   = Some (Str ''https://ayoubkhial.com/blog/foo-bar'')"
  using link_target
    [of "\<lparr>isOpen = True\<rparr>"
        "\<lparr>title = ''Git'', articles = Some [Some \<lparr>slug = ''foo-bar'', title = ''One''\<rparr>], current = ''x''\<rparr>"
        "[Some \<lparr>slug = ''foo-bar'', title = ''One''\<rparr>]" 0 "\<lparr>slug = ''foo-bar'', title = ''One''\<rparr>"]
  by simp

text \<open>
  Claim C6. With the list open, the label of the item at index \<open>i\<close> (counted from
  zero) is \<^verbatim>\<open>Part\<close>, a space, the decimal numeral of \<open>i + 1\<close> and a colon; the text of
  the whole item is that label, a space and the article's title.
\<close>

theorem position_label:
  assumes "isOpen s" and "articles p = Some xs" and "i < length xs" and "xs ! i = Some a"
  shows "map text_content (by_tag ''span'' (rendered_items p s ! i))
           = [''Part '' @ string_of_nat (i + 1) @ '':'']
     \<and> text_content (rendered_items p s ! i)
           = ''Part '' @ string_of_nat (i + 1) @ '': '' @ article.title a"
  using assms
  by (simp add: rendered_item_nth) (simp add: list_item_def opt_title_def by_tag_def)

theorem position_label_witness:
  "text_content (rendered_items
      \<lparr>title = ''Git'',
       articles = Some [Some \<lparr>slug = ''a'', title = ''One''\<rparr>, Some \<lparr>slug = ''b'', title = ''Two''\<rparr>],
       current = ''x''\<rparr> \<lparr>isOpen = True\<rparr> ! 1) = ''Part 2: Two''"
  using position_label
    [of "\<lparr>isOpen = True\<rparr>"
        "\<lparr>title = ''Git'',
       articles = Some [Some \<lparr>slug = ''a'', title = ''One''\<rparr>, Some \<lparr>slug = ''b'', title = ''Two''\<rparr>],
       current = ''x''\<rparr>"
        "[Some \<lparr>slug = ''a'', title = ''One''\<rparr>, Some \<lparr>slug = ''b'', title = ''Two''\<rparr>]"
        1 "\<lparr>slug = ''b'', title = ''Two''\<rparr>"]
  by (simp add: string_of_nat.simps digit_char_def)

text \<open>
  Claim C8. Every rendered link carries \<^verbatim>\<open>target="_blank"\<close> and
  \<^verbatim>\<open>rel="noopener noreferrer"\<close>, and every rendered item has such a link as its only
  child.
\<close>

theorem links_open_isolated:
  "(\<forall>l \<in> set (rendered_links p s).
      attr ''target'' l = Some (Str ''_blank'') \<and> attr ''rel'' l = Some (Str ''noopener noreferrer''))
   \<and> map children (rendered_items p s) = map (\<lambda>l. [l]) (rendered_links p s)"
proof (cases "isOpen s")
  case False
  then show ?thesis by (simp add: links_rendered items_collapsed)
next
  case True
  show ?thesis
  proof (cases "articles p")
    case None
    with True show ?thesis by (simp add: links_rendered items_expanded)
  next
    case (Some xs)
    have kids: "children (list_item c i a) = [hd (children (list_item c i a))]" for c i a
      by (simp add: list_item_def)
    have t: "attr ''target'' (hd (children (list_item c i a))) = Some (Str ''_blank'')" for c i a
      by (simp add: list_item_def)
    have r: "attr ''rel'' (hd (children (list_item c i a))) = Some (Str ''noopener noreferrer'')" for c i a
      by (simp add: list_item_def)
    have m: "map children (list_items c (Some xs))
               = map (\<lambda>ia. [hd (children (list_item c (fst ia) (snd ia)))]) (enumerate 0 xs)" for c
      using kids by (simp add: case_prod_unfold comp_def)
    from True Some show ?thesis
      by (auto simp add: links_rendered items_expanded links_some t r m comp_def
          simp del: list_items.simps)
  qed
qed

theorem links_open_isolated_witness:
  "attr ''target'' (rendered_links
      \<lparr>title = ''Git'', articles = Some [Some \<lparr>slug = ''foo-bar'', title = ''One''\<rparr>], current = ''x''\<rparr>
      \<lparr>isOpen = True\<rparr> ! 0) = Some (Str ''_blank'')
   \<and> attr ''rel'' (rendered_links
      \<lparr>title = ''Git'', articles = Some [Some \<lparr>slug = ''foo-bar'', title = ''One''\<rparr>], current = ''x''\<rparr>
      \<lparr>isOpen = True\<rparr> ! 0) = Some (Str ''noopener noreferrer'')
   \<and> length (rendered_links
      \<lparr>title = ''Git'', articles = Some [Some \<lparr>slug = ''foo-bar'', title = ''One''\<rparr>], current = ''x''\<rparr>
      \<lparr>isOpen = True\<rparr>) = 1"
proof -
  let ?p = "\<lparr>title = ''Git'', articles = Some [Some \<lparr>slug = ''foo-bar'', title = ''One''\<rparr>], current = ''x''\<rparr>"
  let ?s = "\<lparr>isOpen = True\<rparr>"
  have n: "length (rendered_links ?p ?s) = 1"
    by (simp add: links_rendered links_some del: list_items.simps)
  then have "rendered_links ?p ?s ! 0 \<in> set (rendered_links ?p ?s)" by simp
  with links_open_isolated [of ?p ?s] n show ?thesis by blast
qed

section \<open>Empty, missing and unmatched input\<close>

lemma no_match_no_highlight:
  "c \<notin> set (slugs xs) \<Longrightarrow> filter highlighted (list_items c (Some xs)) = []"
proof -
  assume "c \<notin> set (slugs xs)"
  then have "count_list (slugs xs) c = 0" by (simp add: count_list_0_iff)
  then have "length (filter highlighted (list_items c (Some xs))) = 0"
    by (simp only: count_items count_matches)
  then show ?thesis by (simp only: length_0_conv)
qed

text \<open>
  Claim C7. The render function is total: every read of \<^verbatim>\<open>articles\<close> and of an
  element goes through \<^verbatim>\<open>?.\<close>, so a nullish array or element is a case of the function
  and not a failure, and every input gives a tree rooted at the outer \<^verbatim>\<open>div\<close>. Open,
  an empty array and a missing array both give one \<^verbatim>\<open>ul\<close> with no children and no
  item. A \<^verbatim>\<open>current\<close> that is the slug of no element, or a missing array, leaves no item
  highlighted.
\<close>

theorem render_degrades_gracefully:
  "(isOpen s \<and> (articles p = Some [] \<or> articles p = None) \<longrightarrow>
      map children (by_tag ''ul'' (SeriesNavigation p s)) = [[]] \<and> rendered_items p s = [])
   \<and> (articles p = Some xs \<and> current p \<notin> set (slugs xs) \<longrightarrow>
      filter highlighted (rendered_items p s) = [])
   \<and> (articles p = None \<longrightarrow> filter highlighted (rendered_items p s) = [])
   \<and> tag (SeriesNavigation p s) = Some ''div''"
proof -
  have a: "isOpen s \<and> (articles p = Some [] \<or> articles p = None) \<longrightarrow>
      map children (by_tag ''ul'' (SeriesNavigation p s)) = [[]] \<and> rendered_items p s = []"
    by (auto simp add: ul_rendered items_expanded list_body_def)
  have b: "articles p = Some xs \<and> current p \<notin> set (slugs xs) \<longrightarrow>
      filter highlighted (rendered_items p s) = []"
    by (cases "isOpen s") (simp_all add: items_expanded items_collapsed no_match_no_highlight
        del: list_items.simps)
  have c: "articles p = None \<longrightarrow> filter highlighted (rendered_items p s) = []"
    by (cases "isOpen s") (simp_all add: items_expanded items_collapsed)
  have d: "tag (SeriesNavigation p s) = Some ''div''"
    by (simp add: SeriesNavigation_def)
  from a b c d show ?thesis by blast
qed

theorem render_degrades_gracefully_witness:
  "map children (by_tag ''ul'' (SeriesNavigation
       \<lparr>title = ''Git'', articles = Some [], current = ''x''\<rparr> \<lparr>isOpen = True\<rparr>)) = [[]]
   \<and> rendered_items \<lparr>title = ''Git'', articles = Some [], current = ''x''\<rparr> \<lparr>isOpen = True\<rparr> = []
   \<and> map children (by_tag ''ul'' (SeriesNavigation
       \<lparr>title = ''Git'', articles = None, current = ''x''\<rparr> \<lparr>isOpen = True\<rparr>)) = [[]]
   \<and> filter highlighted (rendered_items
       \<lparr>title = ''Git'', articles = Some [Some \<lparr>slug = ''a'', title = ''One''\<rparr>, None], current = ''x''\<rparr>
       \<lparr>isOpen = True\<rparr>) = []"
  using render_degrades_gracefully
      [of "\<lparr>isOpen = True\<rparr>" "\<lparr>title = ''Git'', articles = Some [], current = ''x''\<rparr>" "[]"]
    render_degrades_gracefully
      [of "\<lparr>isOpen = True\<rparr>" "\<lparr>title = ''Git'', articles = None, current = ''x''\<rparr>" "[]"]
    render_degrades_gracefully
      [of "\<lparr>isOpen = True\<rparr>"
          "\<lparr>title = ''Git'', articles = Some [Some \<lparr>slug = ''a'', title = ''One''\<rparr>, None], current = ''x''\<rparr>"
          "[Some \<lparr>slug = ''a'', title = ''One''\<rparr>, None]"]
  by (simp add: slugs_def opt_slug_def)

section \<open>What the current article can change\<close>

text \<open>
  Claim C10. Two renders that differ only in \<^verbatim>\<open>current\<close> give trees that are equal
  once the class of every \<^verbatim>\<open>li\<close> is removed: the same items in the same order and
  number, each with the same link, target, label and title.
\<close>

theorem current_noninterference:
  "strip_li_class (SeriesNavigation (p\<lparr>current := c\<rparr>) s)
     = strip_li_class (SeriesNavigation (p\<lparr>current := c'\<rparr>) s)
   \<and> map children (rendered_items (p\<lparr>current := c\<rparr>) s)
     = map children (rendered_items (p\<lparr>current := c'\<rparr>) s)
   \<and> length (rendered_items (p\<lparr>current := c\<rparr>) s) = length (rendered_items (p\<lparr>current := c'\<rparr>) s)"
proof -
  have strip: "strip_li_class (list_item c i a) = strip_li_class (list_item c' i a)" for i a
    by (simp add: list_item_def)
  have kids: "children (list_item c i a) = children (list_item c' i a)" for i a
    by (simp add: list_item_def)
  have s: "map strip_li_class (list_items c xs) = map strip_li_class (list_items c' xs)" for xs
    by (cases xs) (simp_all add: strip case_prod_unfold comp_def)
  have k: "map children (list_items c xs) = map children (list_items c' xs)" for xs
    by (cases xs) (simp_all add: kids case_prod_unfold comp_def)
  have l: "length (list_items c xs) = length (list_items c' xs)" for xs
    by (cases xs) simp_all
  have tree: "strip_li_class (SeriesNavigation (p\<lparr>current := c\<rparr>) s)
     = strip_li_class (SeriesNavigation (p\<lparr>current := c'\<rparr>) s)"
    by (simp add: SeriesNavigation_def header_row_def list_body_def s del: list_items.simps)
  show ?thesis
  proof (cases "isOpen s")
    case True
    then show ?thesis using tree k l by (simp add: items_expanded del: list_items.simps)
  next
    case False
    then show ?thesis using tree by (simp add: items_collapsed)
  qed
qed

end
